theory Spec2Isabelle
  imports Main
begin

section \<open>adsync: synchronising a directory group with the accounts of an organizational unit\<close>

text \<open>
  The program is one Go file (\<open>package main\<close>) and the \<open>Configuration\<close> struct. It reads a
  JSON configuration through viper, optionally opens a log file, and then runs three
  operations against an LDAP server: \<open>listADUsers\<close>, \<open>listGroupUsers\<close> and
  \<open>synchronizeGroup\<close>, the last of which calls \<open>addUserToGroup\<close> for every account missing
  from the group. Every failure is a Go panic.

  The embedding keeps the package-level variables in a record that is passed through the
  functions and returned updated. A panic is the outcome \<open>Panicked\<close>, which carries the
  state at the moment of the panic. What the program does to the outside world (LDAP
  requests, log lines) is appended to a trace kept in the state. The libraries the program
  calls (viper, go-ldap, the file system, the clock, the Unicode tables behind
  \<open>strings.ToUpper\<close>) are not part of the repository: their answers are the fields of an
  \<open>environment\<close> record.
\<close>

subsection \<open>Data\<close>

text \<open>The struct \<open>Configuration\<close> of configuration.go, with its two anonymous structs.\<close>

record ActiveDirectory_config =
  Host :: string
  Domain :: string
  Username :: string
  Password :: string
  UserDN :: string
  GroupDN :: string
  Group :: string

record Logging_config =
  Enabled :: bool
  Location :: string

record Configuration =
  ActiveDirectory :: ActiveDirectory_config
  Logging :: Logging_config

text \<open>
  Every way the program panics: the three panics of \<open>main\<close>, the five errors handed to
  \<open>writeError\<close>, and the run-time panic of an index expression out of range.
\<close>

datatype error =
    ConfigReadError
  | ConfigCorruptError
  | LogOpenError
  | ConnectError
  | BindError
  | SearchError
  | NoResultsError
  | ModifyError
  | IndexOutOfRange

text \<open>The part of go-ldap's \<open>SearchResult\<close> the program reads.\<close>

record EntryAttribute =
  Name :: string
  Values :: "string list"

record Entry =
  DN :: string
  Attributes :: "EntryAttribute list"

text \<open>
  The observable events of a run. \<open>Opened\<close> is a successful \<open>ldap.DialURL\<close>, \<open>Closed\<close> is
  \<open>l.Close()\<close>; \<open>BindReq\<close>, \<open>SearchReq\<close> and \<open>ModifyReq\<close> are the requests sent on a
  session; \<open>LogInfo\<close> and \<open>LogError\<close> are the lines written by the two loggers.
  \<open>Provision\<close> marks the entry into \<open>addUserToGroup\<close> with its argument: it is the only
  event that is not an effect of the program, and is there so that the calls of the
  provisioner can be read from the trace.
\<close>

datatype event =
    Opened string
  | Closed
  | BindReq string string
  | SearchReq string string "string list"
  | ModifyReq string string "string list"
  | LogInfo string
  | LogError error
  | Provision string

text \<open>
  The package-level variables. The two loggers are pointers that are either nil or set, so
  they are booleans (\<open>True\<close>: not nil); both write to \<open>logFile\<close>, whose lines are the
  \<open>LogInfo\<close> and \<open>LogError\<close> events of the trace.
\<close>

record globals =
  config :: Configuration
  errorLogger :: bool
  infoLogger :: bool
  adUsers :: "string list"
  groupUsers :: "string list"
  trace :: "event list"

datatype outcome = Returned globals | Panicked error globals

fun final :: "outcome \<Rightarrow> globals" where
  "final (Returned g) = g"
| "final (Panicked e g) = g"

fun failure :: "outcome \<Rightarrow> error option" where
  "failure (Returned g) = None"
| "failure (Panicked e g) = Some e"

text \<open>Sequencing of two statements: a panic in the first skips the second.\<close>

fun and_then :: "outcome \<Rightarrow> (globals \<Rightarrow> outcome) \<Rightarrow> outcome" where
  "and_then (Returned g) f = f g"
| "and_then (Panicked e g) f = Panicked e g"

subsection \<open>The environment\<close>

text \<open>
  The configuration file as viper sees it. For each key the file either does not have it
  (\<open>Absent\<close>), has a value that viper decodes into the type of the struct field
  (\<open>Present\<close>), or has a value that \<open>viper.Unmarshal\<close> rejects (\<open>Undecodable\<close>).
\<close>

datatype 'a setting = Absent | Present 'a | Undecodable

record config_json =
  json_host :: "string setting"
  json_domain :: "string setting"
  json_username :: "string setting"
  json_password :: "string setting"
  json_userdn :: "string setting"
  json_groupdn :: "string setting"
  json_group :: "string setting"
  json_enabled :: "bool setting"
  json_location :: "string setting"

datatype config_file = Unreadable | Unparsable | Parsed config_json

text \<open>
  The answers of the outside world. The LDAP server may answer a dial, a bind and a modify
  differently each time, so these three take the trace of the run so far. Each of the two
  searches is sent once in a run, so the answer to a search depends on the request only;
  \<open>None\<close> is a search error. \<open>open_log\<close> is \<open>os.OpenFile\<close> on the joined path, given the
  directory and the file name. \<open>Map_unicode_ToUpper\<close> is the standard library's
  \<open>strings.Map(unicode.ToUpper, s)\<close>: it decodes the code points of \<open>s\<close>, maps each one
  through the Unicode tables and encodes the result.
\<close>

record environment =
  config_file :: config_file
  now_year :: nat
  now_month :: nat
  now_day :: nat
  open_log :: "string \<Rightarrow> string \<Rightarrow> bool"
  ldap_dial :: "event list \<Rightarrow> string \<Rightarrow> bool"
  ldap_bind :: "event list \<Rightarrow> string \<Rightarrow> string \<Rightarrow> bool"
  ldap_search :: "string \<Rightarrow> string \<Rightarrow> string list \<Rightarrow> Entry list option"
  ldap_modify :: "event list \<Rightarrow> string \<Rightarrow> string \<Rightarrow> string list \<Rightarrow> bool"
  Map_unicode_ToUpper :: "string \<Rightarrow> string"

subsection \<open>Library functions\<close>

text \<open>
  \<open>strings.ToUpper\<close>, as the standard library has it. When every byte of the string is
  below \<open>utf8.RuneSelf\<close> (128) the string is ASCII and is mapped byte by byte: a byte
  between \<open>a\<close> and \<open>z\<close> is moved down by \<open>'a' - 'A'\<close>, every other byte is kept.
  Otherwise the result is \<open>strings.Map(unicode.ToUpper, s)\<close>, taken from the environment.
\<close>

definition isASCII :: "string \<Rightarrow> bool" where
  "isASCII s = list_all (\<lambda>c. (of_char c :: nat) < 128) s"

definition upper_byte :: "char \<Rightarrow> char" where
  "upper_byte c =
     (if (97::nat) \<le> of_char c \<and> of_char c \<le> (122::nat)
      then char_of (of_char c - (32::nat)) else c)"

definition ToUpper :: "environment \<Rightarrow> string \<Rightarrow> string" where
  "ToUpper env s = (if isASCII s then map upper_byte s else Map_unicode_ToUpper env s)"

text \<open>\<open>strconv.Itoa\<close> on a number that is not negative (a length, a date field).\<close>

fun Itoa :: "nat \<Rightarrow> string" where
  "Itoa n =
     (if n < 10 then [char_of (48 + n)]
      else Itoa (n div 10) @ [char_of (48 + n mod 10)])"

declare Itoa.simps [simp del]

subsection \<open>Logging\<close>

definition emit :: "event \<Rightarrow> globals \<Rightarrow> globals" where
  "emit ev g = g\<lparr>trace := trace g @ [ev]\<rparr>"

definition writeInfo :: "string \<Rightarrow> globals \<Rightarrow> globals" where
  "writeInfo msg g = (if infoLogger g then emit (LogInfo msg) g else g)"

text \<open>\<open>writeError\<close> never returns: it panics through the logger when there is one.\<close>

definition writeError :: "error \<Rightarrow> globals \<Rightarrow> outcome" where
  "writeError err g =
     (if errorLogger g then Panicked err (emit (LogError err) g) else Panicked err g)"

subsection \<open>Directory sessions\<close>

definition ldap_url :: "globals \<Rightarrow> string" where
  "ldap_url g = ''ldap://'' @ Host (ActiveDirectory (config g)) @ '':389''"

definition bind_username :: "globals \<Rightarrow> string" where
  "bind_username g =
     Domain (ActiveDirectory (config g)) @ [CHR 0x5C] @ Username (ActiveDirectory (config g))"

text \<open>
  \<open>defer l.Close()\<close>: the session is closed when the function is left, whether it returns
  or panics.
\<close>

fun deferred_Close :: "outcome \<Rightarrow> outcome" where
  "deferred_Close (Returned g) = Returned (emit Closed g)"
| "deferred_Close (Panicked e g) = Panicked e (emit Closed g)"

subsection \<open>listADUsers\<close>

definition user_filter :: string where
  "user_filter = ''(&(objectClass=user))''"

definition user_search :: "environment \<Rightarrow> globals \<Rightarrow> Entry list option" where
  "user_search env g =
     ldap_search env (UserDN (ActiveDirectory (config g))) user_filter [''distinguishedName'']"

text \<open>
  The loop over \<open>result.Entries\<close>. \<open>x.Attributes[0].Values[0]\<close> panics when the entry has
  no attribute or its first attribute has no value.
\<close>

fun collectADUsers :: "environment \<Rightarrow> Entry list \<Rightarrow> globals \<Rightarrow> outcome" where
  "collectADUsers env [] g = Returned g"
| "collectADUsers env (x # xs) g =
     (case Attributes x of
        [] \<Rightarrow> Panicked IndexOutOfRange g
      | a # _ \<Rightarrow>
          (case Values a of
             [] \<Rightarrow> Panicked IndexOutOfRange g
           | v # _ \<Rightarrow> collectADUsers env xs (g\<lparr>adUsers := adUsers g @ [ToUpper env v]\<rparr>)))"

text \<open>The body of \<open>listADUsers\<close> after the \<open>defer\<close>.\<close>

definition listADUsers_session :: "environment \<Rightarrow> globals \<Rightarrow> outcome" where
  "listADUsers_session env g =
     (let g1 = emit (BindReq (bind_username g) (Password (ActiveDirectory (config g)))) g in
      if \<not> ldap_bind env (trace g) (bind_username g) (Password (ActiveDirectory (config g)))
      then writeError BindError g1
      else
        let g2 = emit (SearchReq (UserDN (ActiveDirectory (config g))) user_filter
                         [''distinguishedName'']) g1 in
        case user_search env g of
          None \<Rightarrow> writeError SearchError g2
        | Some entries \<Rightarrow>
            if length entries > 0
            then and_then (collectADUsers env entries g2)
                   (\<lambda>g3. Returned
                      (writeInfo (Itoa (length (adUsers g3)) @ '' records retrieved'') g3))
            else writeError NoResultsError g2)"

definition listADUsers :: "environment \<Rightarrow> globals \<Rightarrow> outcome" where
  "listADUsers env g =
     (if \<not> ldap_dial env (trace g) (ldap_url g) then writeError ConnectError g
      else deferred_Close (listADUsers_session env (emit (Opened (ldap_url g)) g)))"

subsection \<open>listGroupUsers\<close>

definition group_filter :: "globals \<Rightarrow> string" where
  "group_filter g = ''(&(objectClass=group)(cn='' @ Group (ActiveDirectory (config g)) @ ''))''"

definition group_search :: "environment \<Rightarrow> globals \<Rightarrow> Entry list option" where
  "group_search env g =
     ldap_search env (GroupDN (ActiveDirectory (config g))) (group_filter g) [''member'']"

text \<open>The loop over the values of the membership attribute.\<close>

fun collectGroupUsers :: "environment \<Rightarrow> string list \<Rightarrow> globals \<Rightarrow> globals" where
  "collectGroupUsers env [] g = g"
| "collectGroupUsers env (x # xs) g =
     collectGroupUsers env xs (g\<lparr>groupUsers := groupUsers g @ [ToUpper env x]\<rparr>)"

text \<open>
  The body of \<open>listGroupUsers\<close> after the \<open>defer\<close>. \<open>result.Entries[0].Attributes[0]\<close> is
  not guarded: it panics when the search matched no entry, and when the first entry came
  back without an attribute.
\<close>

definition listGroupUsers_session :: "environment \<Rightarrow> globals \<Rightarrow> outcome" where
  "listGroupUsers_session env g =
     (let g1 = emit (BindReq (bind_username g) (Password (ActiveDirectory (config g)))) g in
      if \<not> ldap_bind env (trace g) (bind_username g) (Password (ActiveDirectory (config g)))
      then writeError BindError g1
      else
        let g2 = emit (SearchReq (GroupDN (ActiveDirectory (config g))) (group_filter g)
                         [''member'']) g1 in
        case group_search env g of
          None \<Rightarrow> writeError SearchError g2
        | Some entries \<Rightarrow>
            (case entries of
               [] \<Rightarrow> Panicked IndexOutOfRange g2
             | e # _ \<Rightarrow>
                 (case Attributes e of
                    [] \<Rightarrow> Panicked IndexOutOfRange g2
                  | a # _ \<Rightarrow>
                      (let g3 = collectGroupUsers env (Values a) g2 in
                       Returned
                         (writeInfo (Itoa (length (groupUsers g3)) @ '' users in group'') g3)))))"

definition listGroupUsers :: "environment \<Rightarrow> globals \<Rightarrow> outcome" where
  "listGroupUsers env g =
     (if \<not> ldap_dial env (trace g) (ldap_url g) then writeError ConnectError g
      else deferred_Close (listGroupUsers_session env (emit (Opened (ldap_url g)) g)))"

subsection \<open>addUserToGroup\<close>

definition group_entry_dn :: "globals \<Rightarrow> string" where
  "group_entry_dn g =
     ''cn='' @ Group (ActiveDirectory (config g)) @ '','' @ GroupDN (ActiveDirectory (config g))"

definition addUserToGroup_session :: "environment \<Rightarrow> string \<Rightarrow> globals \<Rightarrow> outcome" where
  "addUserToGroup_session env name g =
     (let g1 = emit (BindReq (bind_username g) (Password (ActiveDirectory (config g)))) g in
      if \<not> ldap_bind env (trace g) (bind_username g) (Password (ActiveDirectory (config g)))
      then writeError BindError g1
      else
        let g2 = emit (ModifyReq (group_entry_dn g) ''member'' [name]) g1 in
        if \<not> ldap_modify env (trace g1) (group_entry_dn g) ''member'' [name]
        then writeError ModifyError g2
        else Returned (writeInfo (name @ '' added to group'') g2))"

definition addUserToGroup :: "environment \<Rightarrow> string \<Rightarrow> globals \<Rightarrow> outcome" where
  "addUserToGroup env name g =
     (let g0 = emit (Provision name) g in
      if \<not> ldap_dial env (trace g0) (ldap_url g0) then writeError ConnectError g0
      else deferred_Close (addUserToGroup_session env name (emit (Opened (ldap_url g0)) g0)))"

subsection \<open>synchronizeGroup\<close>

text \<open>The inner loop: \<open>found\<close> after the search for \<open>x\<close> in \<open>groupUsers\<close>.\<close>

fun found_in :: "string \<Rightarrow> string list \<Rightarrow> bool" where
  "found_in x [] = False"
| "found_in x (y # ys) = (if x = y then True else found_in x ys)"

text \<open>The outer loop over \<open>adUsers\<close>; a panic of \<open>addUserToGroup\<close> ends it.\<close>

fun synchronizeLoop :: "environment \<Rightarrow> string list \<Rightarrow> globals \<Rightarrow> outcome" where
  "synchronizeLoop env [] g = Returned g"
| "synchronizeLoop env (x # xs) g =
     (if \<not> found_in x (groupUsers g)
      then and_then (addUserToGroup env x g) (synchronizeLoop env xs)
      else synchronizeLoop env xs g)"

definition synchronizeGroup :: "environment \<Rightarrow> globals \<Rightarrow> outcome" where
  "synchronizeGroup env g = synchronizeLoop env (adUsers g) g"

subsection \<open>main\<close>

text \<open>
  \<open>viper.ReadInConfig\<close> fails on a file that cannot be read or parsed.
  \<open>viper.Unmarshal\<close> fails when some key holds a value it cannot decode; a key the file
  does not have takes the value registered by \<open>viper.SetDefault\<close> when there is one
  (\<open>logging.enabled\<close>, \<open>logging.location\<close>, \<open>activedirectory.host\<close>), and leaves the
  field at its zero value otherwise.
\<close>

definition ReadInConfig :: "config_file \<Rightarrow> error + config_json" where
  "ReadInConfig f =
     (case f of
        Unreadable \<Rightarrow> Inl ConfigReadError
      | Unparsable \<Rightarrow> Inl ConfigReadError
      | Parsed j \<Rightarrow> Inr j)"

fun value_or :: "'a \<Rightarrow> 'a setting \<Rightarrow> 'a" where
  "value_or d Absent = d"
| "value_or d (Present v) = v"
| "value_or d Undecodable = d"

definition decodable :: "config_json \<Rightarrow> bool" where
  "decodable j \<longleftrightarrow>
     json_host j \<noteq> Undecodable \<and> json_domain j \<noteq> Undecodable \<and>
     json_username j \<noteq> Undecodable \<and> json_password j \<noteq> Undecodable \<and>
     json_userdn j \<noteq> Undecodable \<and> json_groupdn j \<noteq> Undecodable \<and>
     json_group j \<noteq> Undecodable \<and> json_enabled j \<noteq> Undecodable \<and>
     json_location j \<noteq> Undecodable"

definition Unmarshal :: "config_json \<Rightarrow> error + Configuration" where
  "Unmarshal j =
     (if decodable j
      then Inr \<lparr>ActiveDirectory =
                  \<lparr>Host = value_or ''127.0.0.1'' (json_host j),
                   Domain = value_or [] (json_domain j),
                   Username = value_or [] (json_username j),
                   Password = value_or [] (json_password j),
                   UserDN = value_or [] (json_userdn j),
                   GroupDN = value_or [] (json_groupdn j),
                   Group = value_or [] (json_group j)\<rparr>,
                Logging =
                  \<lparr>Enabled = value_or False (json_enabled j),
                   Location = value_or ''.'' (json_location j)\<rparr>\<rparr>
      else Inl ConfigCorruptError)"

text \<open>The package-level variables when \<open>main\<close> starts: every one at its zero value.\<close>

definition initial_globals :: globals where
  "initial_globals =
     \<lparr>config =
        \<lparr>ActiveDirectory =
           \<lparr>Host = [], Domain = [], Username = [], Password = [], UserDN = [],
            GroupDN = [], Group = []\<rparr>,
         Logging = \<lparr>Enabled = False, Location = []\<rparr>\<rparr>,
      errorLogger = False, infoLogger = False, adUsers = [], groupUsers = [], trace = []\<rparr>"

definition logfilename :: "environment \<Rightarrow> string" where
  "logfilename env =
     ''adsync'' @ Itoa (now_year env) @ Itoa (now_month env) @ Itoa (now_day env) @ ''.log''"

text \<open>The first part of \<open>main\<close>: the configuration and the log file.\<close>

definition main_startup :: "environment \<Rightarrow> outcome" where
  "main_startup env =
     (case ReadInConfig (config_file env) of
        Inl e \<Rightarrow> Panicked e initial_globals
      | Inr j \<Rightarrow>
          (case Unmarshal j of
             Inl e \<Rightarrow> Panicked e initial_globals
           | Inr c \<Rightarrow>
               (let g = initial_globals\<lparr>config := c\<rparr> in
                if Enabled (Logging c)
                then (if open_log env (Location (Logging c)) (logfilename env)
                      then Returned (g\<lparr>errorLogger := True, infoLogger := True\<rparr>)
                      else Panicked LogOpenError g)
                else Returned g)))"

text \<open>The second part of \<open>main\<close>: the three operations, in this order.\<close>

definition main_run :: "environment \<Rightarrow> globals \<Rightarrow> outcome" where
  "main_run env g =
     and_then
       (listADUsers env (writeInfo ''Loading the list of users from Active Directory'' g))
       (\<lambda>g1. and_then
          (listGroupUsers env (writeInfo ''Loading the list of users in group'' g1))
          (\<lambda>g2. synchronizeGroup env (writeInfo ''Synchronizing group membership'' g2)))"

definition main :: "environment \<Rightarrow> outcome" where
  "main env = and_then (main_startup env) (main_run env)"

subsection \<open>Reading a run\<close>

text \<open>The arguments of the calls of \<open>addUserToGroup\<close> in a trace, in order.\<close>

fun calls :: "event list \<Rightarrow> string list" where
  "calls [] = []"
| "calls (Provision n # evs) = n # calls evs"
| "calls (ev # evs) = calls evs"

text \<open>The opening and closing of sessions in a trace.\<close>

fun session_events :: "event list \<Rightarrow> event list" where
  "session_events [] = []"
| "session_events (Opened u # evs) = Opened u # session_events evs"
| "session_events (Closed # evs) = Closed # session_events evs"
| "session_events (ev # evs) = session_events evs"

text \<open>The events that an operation started in state \<open>g\<close> has added when it ends.\<close>

definition new_events :: "globals \<Rightarrow> outcome \<Rightarrow> event list" where
  "new_events g out = drop (length (trace g)) (trace (final out))"

text \<open>The identifiers that an operation started in state \<open>g\<close> has passed to the provisioner.\<close>

definition invoked :: "globals \<Rightarrow> outcome \<Rightarrow> string list" where
  "invoked g out = calls (new_events g out)"

text \<open>
  Letter case is what the normalisation of the program removes: two identifiers differ
  only in letter case when \<open>strings.ToUpper\<close> gives the same string for both (the
  specification: exact string match after uppercasing). The relation follows the
  library, so it covers the letters of every alphabet the library knows.
\<close>

definition differ_only_in_case :: "environment \<Rightarrow> string \<Rightarrow> string \<Rightarrow> bool" where
  "differ_only_in_case env x y \<longleftrightarrow> ToUpper env x = ToUpper env y"







text \<open>The accounts that are not in the group, in the order of \<open>adUsers\<close>.\<close>

definition missing :: "globals \<Rightarrow> string list" where
  "missing g = filter (\<lambda>x. x \<notin> set (groupUsers g)) (adUsers g)"

subsection \<open>Example configurations and directories\<close>

text \<open>
  The example directories answer every dial and bind, answer the two searches with the
  given entries, and accept a modification when \<open>accepts\<close> holds of the added value. They
  hold ASCII identifiers only, and leave open what the library answers on other strings.
\<close>

definition example_config :: Configuration where
  "example_config =
     \<lparr>ActiveDirectory =
        \<lparr>Host = ''dc1'', Domain = ''CORP'', Username = ''svc'', Password = ''secret'',
         UserDN = ''ou=staff,dc=corp'', GroupDN = ''ou=groups,dc=corp'', Group = ''everyone''\<rparr>,
      Logging = \<lparr>Enabled = False, Location = ''.''\<rparr>\<rparr>"

definition example_json :: config_json where
  "example_json =
     \<lparr>json_host = Present ''dc1'', json_domain = Present ''CORP'',
      json_username = Present ''svc'', json_password = Present ''secret'',
      json_userdn = Present ''ou=staff,dc=corp'', json_groupdn = Present ''ou=groups,dc=corp'',
      json_group = Present ''everyone'', json_enabled = Absent, json_location = Absent\<rparr>"

definition hostless_json :: config_json where
  "hostless_json = example_json\<lparr>json_host := Absent\<rparr>"

definition example_state :: "string list \<Rightarrow> string list \<Rightarrow> globals" where
  "example_state A G = initial_globals\<lparr>config := example_config, adUsers := A, groupUsers := G\<rparr>"

definition directory ::
  "Entry list option \<Rightarrow> Entry list option \<Rightarrow> (string \<Rightarrow> bool) \<Rightarrow> environment" where
  "directory users groups accepts =
     \<lparr>config_file = Parsed example_json, now_year = 2024, now_month = 3, now_day = 9,
      open_log = (\<lambda>dir file. True),
      ldap_dial = (\<lambda>tr url. True),
      ldap_bind = (\<lambda>tr user pw. True),
      ldap_search = (\<lambda>base flt attrs. if attrs = [''member''] then groups else users),
      ldap_modify = (\<lambda>tr dn attr vals. list_all accepts vals),
      Map_unicode_ToUpper = undefined\<rparr>"

definition group_entry :: "string list \<Rightarrow> Entry" where
  "group_entry members =
     \<lparr>DN = ''cn=everyone,ou=groups,dc=corp'',
      Attributes = [\<lparr>Name = ''member'', Values = members\<rparr>]\<rparr>"

definition user_entry :: "string \<Rightarrow> Entry" where
  "user_entry dn = \<lparr>DN = dn, Attributes = [\<lparr>Name = ''distinguishedName'', Values = [dn]\<rparr>]\<rparr>"

text \<open>
  A directory with an accented name: the account is \<open>cn=jos\<close> followed by the two bytes
  of a small e with acute accent, the group member is written with capitals except for
  that letter. The library maps both strings to the same uppercase string, whose accented
  letter is the two bytes \<open>c3 89\<close>.
\<close>

definition accented_account :: string where
  "accented_account = ''cn=jos'' @ [CHR 0xC3, CHR 0xA9] @ '',ou=staff,dc=corp''"

definition accented_member :: string where
  "accented_member = ''CN=Jos'' @ [CHR 0xC3, CHR 0xA9] @ '',OU=staff,DC=corp''"

definition accented_directory :: environment where
  "accented_directory =
     (directory (Some [user_entry accented_account]) (Some [group_entry [accented_member]])
        (\<lambda>n. True))
     \<lparr>Map_unicode_ToUpper :=
        (\<lambda>s. if s = accented_account \<or> s = accented_member
             then ''CN=JOS'' @ [CHR 0xC3, CHR 0x89] @ '',OU=STAFF,DC=CORP''
             else undefined s)\<rparr>"

lemmas run_defs =
  synchronizeGroup_def addUserToGroup_def addUserToGroup_session_def writeError_def
  writeInfo_def emit_def ldap_url_def bind_username_def group_entry_dn_def Let_def
  example_state_def example_config_def initial_globals_def directory_def
  invoked_def new_events_def

lemmas lister_defs =
  listADUsers_def listADUsers_session_def listGroupUsers_def listGroupUsers_session_def
  user_search_def group_search_def user_filter_def group_filter_def main_run_def
  ToUpper_def isASCII_def upper_byte_def char_of_def bit_0

lemmas startup_defs =
  main_def main_startup_def ReadInConfig_def Unmarshal_def decodable_def example_json_def
  logfilename_def


section \<open>Properties\<close>

subsection \<open>Traces and frames\<close>

lemma calls_append: "calls (xs @ ys) = calls xs @ calls ys"
  by (induction xs rule: calls.induct) simp_all

lemma session_events_append: "session_events (xs @ ys) = session_events xs @ session_events ys"
  by (induction xs rule: session_events.induct) simp_all

lemma found_in_set: "found_in x ys \<longleftrightarrow> x \<in> set ys"
  by (induction ys) auto

lemma final_writeError [simp]:
  "final (writeError e g) = (if errorLogger g then emit (LogError e) g else g)"
  by (simp add: writeError_def)

lemma failure_writeError [simp]: "failure (writeError e g) = Some e"
  by (simp add: writeError_def)

lemma final_deferred_Close [simp]: "final (deferred_Close out) = emit Closed (final out)"
  by (cases out) simp_all

lemma failure_deferred_Close [simp]: "failure (deferred_Close out) = failure out"
  by (cases out) simp_all

lemma emit_simps [simp]:
  "trace (emit ev g) = trace g @ [ev]"
  "config (emit ev g) = config g"
  "adUsers (emit ev g) = adUsers g"
  "groupUsers (emit ev g) = groupUsers g"
  "errorLogger (emit ev g) = errorLogger g"
  "infoLogger (emit ev g) = infoLogger g"
  by (simp_all add: emit_def)

lemma writeInfo_simps [simp]:
  "trace (writeInfo m g) = (if infoLogger g then trace g @ [LogInfo m] else trace g)"
  "config (writeInfo m g) = config g"
  "adUsers (writeInfo m g) = adUsers g"
  "groupUsers (writeInfo m g) = groupUsers g"
  "errorLogger (writeInfo m g) = errorLogger g"
  "infoLogger (writeInfo m g) = infoLogger g"
  by (simp_all add: writeInfo_def)

lemma ldap_url_emit [simp]: "ldap_url (emit ev g) = ldap_url g"
  by (simp add: ldap_url_def)

lemma bind_username_emit [simp]: "bind_username (emit ev g) = bind_username g"
  by (simp add: bind_username_def)

lemma group_entry_dn_emit [simp]: "group_entry_dn (emit ev g) = group_entry_dn g"
  by (simp add: group_entry_dn_def)

lemma addUserToGroup_session_trace:
  "\<exists>ext. trace (final (addUserToGroup_session env name g)) = trace g @ ext
         \<and> calls ext = [] \<and> session_events ext = []"
  by (simp add: addUserToGroup_session_def Let_def)

lemma addUserToGroup_session_frame:
  "groupUsers (final (addUserToGroup_session env name g)) = groupUsers g"
  "adUsers (final (addUserToGroup_session env name g)) = adUsers g"
  "config (final (addUserToGroup_session env name g)) = config g"
  by (simp_all add: addUserToGroup_session_def Let_def)

lemma addUserToGroup_trace:
  "\<exists>ext. trace (final (addUserToGroup env name g)) = trace g @ ext \<and> calls ext = [name]"
proof (cases "ldap_dial env (trace g @ [Provision name]) (ldap_url g)")
  case False
  then show ?thesis by (simp add: addUserToGroup_def Let_def)
next
  case True
  obtain ext where
    "trace (final (addUserToGroup_session env name (emit (Opened (ldap_url g)) (emit (Provision name) g))))
       = trace (emit (Opened (ldap_url g)) (emit (Provision name) g)) @ ext"
    "calls ext = []"
    using addUserToGroup_session_trace by blast
  with True show ?thesis by (simp add: addUserToGroup_def Let_def calls_append)
qed

lemma addUserToGroup_frame:
  "groupUsers (final (addUserToGroup env name g)) = groupUsers g"
  "adUsers (final (addUserToGroup env name g)) = adUsers g"
  "config (final (addUserToGroup env name g)) = config g"
  by (simp_all add: addUserToGroup_def Let_def addUserToGroup_session_frame)

subsection \<open>The synchronizer loop\<close>

lemma and_then_final_cases:
  "and_then out f = (case out of Returned g \<Rightarrow> f g | Panicked e g \<Rightarrow> Panicked e g)"
  by (cases out) simp_all

lemma synchronizeLoop_frame:
  "groupUsers (final (synchronizeLoop env xs g)) = groupUsers g \<and>
   adUsers (final (synchronizeLoop env xs g)) = adUsers g \<and>
   config (final (synchronizeLoop env xs g)) = config g"
proof (induction xs arbitrary: g)
  case Nil
  show ?case by simp
next
  case (Cons x xs)
  show ?case
  proof (cases "found_in x (groupUsers g)")
    case True
    then show ?thesis using Cons.IH [of g] by simp
  next
    case False
    show ?thesis
    proof (cases "addUserToGroup env x g")
      case (Returned g1)
      then have "groupUsers g1 = groupUsers g" "adUsers g1 = adUsers g" "config g1 = config g"
        using addUserToGroup_frame [of env x g] by simp_all
      then show ?thesis using False Returned Cons.IH [of g1] by simp
    next
      case (Panicked e g1)
      then show ?thesis using False addUserToGroup_frame [of env x g] by simp
    qed
  qed
qed

lemma synchronizeLoop_calls:
  "\<exists>ext. trace (final (synchronizeLoop env xs g)) = trace g @ ext \<and>
     (\<exists>n. calls ext = take n (filter (\<lambda>x. x \<notin> set (groupUsers g)) xs)) \<and>
     (failure (synchronizeLoop env xs g) = None \<longrightarrow>
        calls ext = filter (\<lambda>x. x \<notin> set (groupUsers g)) xs)"
proof (induction xs arbitrary: g)
  case Nil
  show ?case by simp
next
  case (Cons x xs)
  show ?case
  proof (cases "found_in x (groupUsers g)")
    case True
    then show ?thesis using Cons.IH [of g] by (simp add: found_in_set)
  next
    case False
    then have nx: "x \<notin> set (groupUsers g)" by (simp add: found_in_set)
    obtain e1 where e1: "trace (final (addUserToGroup env x g)) = trace g @ e1" "calls e1 = [x]"
      using addUserToGroup_trace by blast
    show ?thesis
    proof (cases "addUserToGroup env x g")
      case (Panicked e g1)
      have t: "trace (final (synchronizeLoop env (x # xs) g)) = trace g @ e1"
        using Panicked False e1 by simp
      have c: "calls e1 = take 1 (filter (\<lambda>x. x \<notin> set (groupUsers g)) (x # xs))"
        using nx e1 by simp
      have f: "failure (synchronizeLoop env (x # xs) g) \<noteq> None"
        using False Panicked by simp
      show ?thesis
      proof (intro exI conjI impI)
        show "trace (final (synchronizeLoop env (x # xs) g)) = trace g @ e1" by (rule t)
        show "calls e1 = take 1 (filter (\<lambda>x. x \<notin> set (groupUsers g)) (x # xs))" by (rule c)
        assume "failure (synchronizeLoop env (x # xs) g) = None"
        with f show "calls e1 = filter (\<lambda>x. x \<notin> set (groupUsers g)) (x # xs)" by simp
      qed
    next
      case (Returned g1)
      then have g1: "trace g1 = trace g @ e1" "groupUsers g1 = groupUsers g"
        using e1 addUserToGroup_frame [of env x g] by simp_all
      obtain e2 n where e2: "trace (final (synchronizeLoop env xs g1)) = trace g1 @ e2"
        "calls e2 = take n (filter (\<lambda>x. x \<notin> set (groupUsers g1)) xs)"
        "failure (synchronizeLoop env xs g1) = None \<longrightarrow>
           calls e2 = filter (\<lambda>x. x \<notin> set (groupUsers g1)) xs"
        using Cons.IH [of g1] by (elim exE conjE) (rule that, assumption+)
      have eq: "synchronizeLoop env (x # xs) g = synchronizeLoop env xs g1"
        using False Returned by simp
      have t: "trace (final (synchronizeLoop env (x # xs) g)) = trace g @ (e1 @ e2)"
        using eq e2 g1 by simp
      have c: "calls (e1 @ e2) = take (Suc n) (filter (\<lambda>x. x \<notin> set (groupUsers g)) (x # xs))"
        using nx e1 e2 g1 by (simp add: calls_append)
      have f: "failure (synchronizeLoop env (x # xs) g) = None \<Longrightarrow>
          calls (e1 @ e2) = filter (\<lambda>x. x \<notin> set (groupUsers g)) (x # xs)"
        using nx e1 e2 g1 eq by (simp add: calls_append)
      show ?thesis
      proof (intro exI conjI impI)
        show "trace (final (synchronizeLoop env (x # xs) g)) = trace g @ (e1 @ e2)" by (rule t)
        show "calls (e1 @ e2) = take (Suc n) (filter (\<lambda>x. x \<notin> set (groupUsers g)) (x # xs))"
          by (rule c)
        assume "failure (synchronizeLoop env (x # xs) g) = None"
        then show "calls (e1 @ e2) = filter (\<lambda>x. x \<notin> set (groupUsers g)) (x # xs)" by (rule f)
      qed
    qed
  qed
qed

lemma invoked_append:
  "trace (final out) = trace g @ ext \<Longrightarrow> invoked g out = calls ext"
  by (simp add: invoked_def new_events_def)

lemma synchronizeGroup_invoked_prefix:
  "\<exists>n. invoked g (synchronizeGroup env g) = take n (missing g)"
  using synchronizeLoop_calls [of env "adUsers g" g]
  by (auto simp: synchronizeGroup_def missing_def invoked_append)

lemma synchronizeGroup_invoked_Returned:
  "failure (synchronizeGroup env g) = None \<Longrightarrow> invoked g (synchronizeGroup env g) = missing g"
  using synchronizeLoop_calls [of env "adUsers g" g]
  by (auto simp: synchronizeGroup_def missing_def invoked_append)

lemma synchronizeLoop_append:
  "synchronizeLoop env (xs @ ys) g = and_then (synchronizeLoop env xs g) (synchronizeLoop env ys)"
proof (induction xs arbitrary: g)
  case Nil
  show ?case by simp
next
  case (Cons x xs)
  show ?case
  proof (cases "addUserToGroup env x g")
    case (Returned g1)
    then show ?thesis using Cons.IH by simp
  next
    case (Panicked e g1)
    then show ?thesis using Cons.IH by simp
  qed
qed

lemma synchronizeLoop_no_missing:
  "set xs \<subseteq> set (groupUsers g) \<Longrightarrow> synchronizeLoop env xs g = Returned g"
  by (induction xs) (simp_all add: found_in_set)

subsection \<open>The two listers\<close>

lemma collectADUsers_frame:
  "trace (final (collectADUsers env es g)) = trace g \<and>
   groupUsers (final (collectADUsers env es g)) = groupUsers g \<and>
   config (final (collectADUsers env es g)) = config g \<and>
   infoLogger (final (collectADUsers env es g)) = infoLogger g \<and>
   errorLogger (final (collectADUsers env es g)) = errorLogger g"
  by (induction es arbitrary: g) (simp_all split: list.splits)

lemma collectGroupUsers_eq:
  "collectGroupUsers env vs g = g\<lparr>groupUsers := groupUsers g @ map (ToUpper env) vs\<rparr>"
  by (induction vs arbitrary: g) simp_all

lemma final_and_then_Returned [simp]:
  "final (and_then out (\<lambda>g. Returned (f g))) = (case out of Returned g \<Rightarrow> f g | Panicked e g \<Rightarrow> g)"
  by (cases out) simp_all

lemma and_then_writeInfo_trace:
  "\<exists>ext. trace (final (and_then out (\<lambda>g3. Returned (writeInfo (m g3) g3)))) =
           trace (final out) @ ext \<and> calls ext = [] \<and> session_events ext = []"
  by (cases out) (simp_all add: writeInfo_def)

lemma listADUsers_session_trace:
  "\<exists>ext. trace (final (listADUsers_session env g)) = trace g @ ext
         \<and> calls ext = [] \<and> session_events ext = []"
proof (cases "ldap_bind env (trace g) (bind_username g) (Password (ActiveDirectory (config g)))")
  case False
  then show ?thesis by (simp add: listADUsers_session_def Let_def)
next
  case bound: True
  show ?thesis
  proof (cases "user_search env g")
    case None
    with bound show ?thesis by (simp add: listADUsers_session_def Let_def)
  next
    case (Some entries)
    show ?thesis
    proof (cases "entries = []")
      case True
      with bound Some show ?thesis by (simp add: listADUsers_session_def Let_def)
    next
      case False
      let ?g2 = "emit (SearchReq (UserDN (ActiveDirectory (config g))) user_filter
                    [''distinguishedName''])
                  (emit (BindReq (bind_username g) (Password (ActiveDirectory (config g)))) g)"
      let ?out = "and_then (collectADUsers env entries ?g2)
                    (\<lambda>g3. Returned
                       (writeInfo (Itoa (length (adUsers g3)) @ '' records retrieved'') g3))"
      have eq: "listADUsers_session env g = ?out"
        using bound Some False by (simp add: listADUsers_session_def Let_def)
      obtain ext where ext: "trace (final ?out) = trace (final (collectADUsers env entries ?g2)) @ ext"
        "calls ext = []" "session_events ext = []"
        using and_then_writeInfo_trace
          [of "collectADUsers env entries ?g2" "\<lambda>g3. Itoa (length (adUsers g3)) @ '' records retrieved''"]
        by (elim exE conjE) (rule that, assumption+)
      have "trace (final (collectADUsers env entries ?g2)) = trace ?g2"
        using collectADUsers_frame [of env entries ?g2] by simp
      with ext eq show ?thesis by simp
    qed
  qed
qed

lemma listGroupUsers_session_trace:
  "\<exists>ext. trace (final (listGroupUsers_session env g)) = trace g @ ext
         \<and> calls ext = [] \<and> session_events ext = []"
  by (simp add: listGroupUsers_session_def Let_def collectGroupUsers_eq
      split: option.splits list.splits)

lemma group_filter_emit [simp]: "group_filter (emit ev g) = group_filter g"
  by (simp add: group_filter_def)

lemma group_search_emit [simp]: "group_search env (emit ev g) = group_search env g"
  by (simp add: group_search_def)

lemma user_search_emit [simp]: "user_search env (emit ev g) = user_search env g"
  by (simp add: user_search_def)

lemma writeInfo_config_simps [simp]:
  "ldap_url (writeInfo m g) = ldap_url g"
  "bind_username (writeInfo m g) = bind_username g"
  "group_search env (writeInfo m g) = group_search env g"
  "user_search env (writeInfo m g) = user_search env g"
  by (simp_all add: ldap_url_def bind_username_def group_search_def group_filter_def
      user_search_def)

lemma new_events_append:
  "trace (final out) = trace g @ ext \<Longrightarrow> new_events g out = ext"
  by (simp add: new_events_def)

lemma listADUsers_sessions:
  "session_events (new_events g (listADUsers env g)) =
     (if ldap_dial env (trace g) (ldap_url g) then [Opened (ldap_url g), Closed] else [])"
proof (cases "ldap_dial env (trace g) (ldap_url g)")
  case False
  then have "trace (final (listADUsers env g)) =
      trace g @ (if errorLogger g then [LogError ConnectError] else [])"
    by (simp add: listADUsers_def)
  then have "new_events g (listADUsers env g) = (if errorLogger g then [LogError ConnectError] else [])"
    by (rule new_events_append)
  with False show ?thesis by simp
next
  case True
  obtain ext where ext: "trace (final (listADUsers_session env (emit (Opened (ldap_url g)) g))) =
      trace (emit (Opened (ldap_url g)) g) @ ext" "session_events ext = []"
    using listADUsers_session_trace [of env "emit (Opened (ldap_url g)) g"]
    by (elim exE conjE) (rule that, assumption+)
  have "trace (final (listADUsers env g)) = trace g @ (Opened (ldap_url g) # ext @ [Closed])"
    using True ext by (simp add: listADUsers_def)
  then have "new_events g (listADUsers env g) = Opened (ldap_url g) # ext @ [Closed]"
    by (rule new_events_append)
  with True ext show ?thesis by (simp add: session_events_append)
qed

lemma listGroupUsers_sessions:
  "session_events (new_events g (listGroupUsers env g)) =
     (if ldap_dial env (trace g) (ldap_url g) then [Opened (ldap_url g), Closed] else [])"
proof (cases "ldap_dial env (trace g) (ldap_url g)")
  case False
  then have "trace (final (listGroupUsers env g)) =
      trace g @ (if errorLogger g then [LogError ConnectError] else [])"
    by (simp add: listGroupUsers_def)
  then have "new_events g (listGroupUsers env g) = (if errorLogger g then [LogError ConnectError] else [])"
    by (rule new_events_append)
  with False show ?thesis by simp
next
  case True
  obtain ext where ext: "trace (final (listGroupUsers_session env (emit (Opened (ldap_url g)) g))) =
      trace (emit (Opened (ldap_url g)) g) @ ext" "session_events ext = []"
    using listGroupUsers_session_trace [of env "emit (Opened (ldap_url g)) g"]
    by (elim exE conjE) (rule that, assumption+)
  have "trace (final (listGroupUsers env g)) = trace g @ (Opened (ldap_url g) # ext @ [Closed])"
    using True ext by (simp add: listGroupUsers_def)
  then have "new_events g (listGroupUsers env g) = Opened (ldap_url g) # ext @ [Closed]"
    by (rule new_events_append)
  with True ext show ?thesis by (simp add: session_events_append)
qed

lemma addUserToGroup_sessions:
  "session_events (new_events g (addUserToGroup env name g)) =
     (if ldap_dial env (trace g @ [Provision name]) (ldap_url g)
      then [Opened (ldap_url g), Closed] else [])"
proof (cases "ldap_dial env (trace g @ [Provision name]) (ldap_url g)")
  case False
  then have "trace (final (addUserToGroup env name g)) =
      trace g @ (Provision name # (if errorLogger g then [LogError ConnectError] else []))"
    by (simp add: addUserToGroup_def Let_def)
  then have "new_events g (addUserToGroup env name g) =
      Provision name # (if errorLogger g then [LogError ConnectError] else [])"
    by (rule new_events_append)
  with False show ?thesis by simp
next
  case True
  let ?g0 = "emit (Opened (ldap_url g)) (emit (Provision name) g)"
  obtain ext where ext: "trace (final (addUserToGroup_session env name ?g0)) = trace ?g0 @ ext"
      "session_events ext = []"
    using addUserToGroup_session_trace [of env name ?g0]
    by (elim exE conjE) (rule that, assumption+)
  have "trace (final (addUserToGroup env name g)) =
      trace g @ (Provision name # Opened (ldap_url g) # ext @ [Closed])"
    using True ext by (simp add: addUserToGroup_def Let_def)
  then have "new_events g (addUserToGroup env name g) =
      Provision name # Opened (ldap_url g) # ext @ [Closed]"
    by (rule new_events_append)
  with True ext show ?thesis by (simp add: session_events_append)
qed

lemma listADUsers_trace:
  "\<exists>ext. trace (final (listADUsers env g)) = trace g @ ext \<and> calls ext = []"
proof (cases "ldap_dial env (trace g) (ldap_url g)")
  case False
  then show ?thesis by (simp add: listADUsers_def)
next
  case True
  obtain ext where ext: "trace (final (listADUsers_session env (emit (Opened (ldap_url g)) g))) =
      trace (emit (Opened (ldap_url g)) g) @ ext" "calls ext = []"
    using listADUsers_session_trace [of env "emit (Opened (ldap_url g)) g"]
    by (elim exE conjE) (rule that, assumption+)
  have "trace (final (listADUsers env g)) = trace g @ (Opened (ldap_url g) # ext @ [Closed])"
    using True ext by (simp add: listADUsers_def)
  moreover have "calls (Opened (ldap_url g) # ext @ [Closed]) = []"
    using ext by (simp add: calls_append)
  ultimately show ?thesis by (intro exI conjI)
qed


lemma writeInfo_trace:
  "\<exists>ext. trace (writeInfo m g) = trace g @ ext \<and> calls ext = []"
  by (simp add: writeInfo_def)

lemma and_then_Panicked: "failure out \<noteq> None \<Longrightarrow> and_then out f = out"
  by (cases out) simp_all

lemma listGroupUsers_no_attribute:
  assumes "ldap_dial env (trace g) (ldap_url g)"
    and "ldap_bind env (trace g @ [Opened (ldap_url g)]) (bind_username g)
           (Password (ActiveDirectory (config g)))"
    and "group_search env g = Some (e # es)"
    and "Attributes e = []"
  shows "failure (listGroupUsers env g) = Some IndexOutOfRange \<and>
         groupUsers (final (listGroupUsers env g)) = groupUsers g"
  using assms by (simp add: listGroupUsers_def listGroupUsers_session_def Let_def)

subsection \<open>Uppercasing and the whole run\<close>







lemma writeError_neq_Returned [simp]: "writeError e g \<noteq> Returned g'"
  by (simp add: writeError_def)









subsection \<open>Startup\<close>

lemma main_startup_failure:
  "failure (main_startup env) =
     (case config_file env of
        Unreadable \<Rightarrow> Some ConfigReadError
      | Unparsable \<Rightarrow> Some ConfigReadError
      | Parsed j \<Rightarrow>
          if \<not> decodable j then Some ConfigCorruptError
          else if value_or False (json_enabled j) \<and>
                  \<not> open_log env (value_or ''.'' (json_location j)) (logfilename env)
               then Some LogOpenError
               else None)"
  by (simp add: main_startup_def ReadInConfig_def Unmarshal_def Let_def split: config_file.splits)

subsection \<open>The group lister on a non-empty search result\<close>

lemma ToUpper_ldap_search_update [simp]:
  "ToUpper (env\<lparr>ldap_search := f\<rparr>) = ToUpper env"
  by (simp add: ToUpper_def fun_eq_iff)

lemma listGroupUsers_on_entries:
  assumes "group_search env g = Some (e # es)"
  shows "listGroupUsers env g =
     (if \<not> ldap_dial env (trace g) (ldap_url g) then writeError ConnectError g
      else if \<not> ldap_bind env (trace g @ [Opened (ldap_url g)]) (bind_username g)
                  (Password (ActiveDirectory (config g)))
      then deferred_Close
             (writeError BindError
                (emit (BindReq (bind_username g) (Password (ActiveDirectory (config g))))
                   (emit (Opened (ldap_url g)) g)))
      else
        (case Attributes e of
           [] \<Rightarrow>
             Panicked IndexOutOfRange
               (emit Closed
                  (emit (SearchReq (GroupDN (ActiveDirectory (config g))) (group_filter g)
                           [''member''])
                     (emit (BindReq (bind_username g) (Password (ActiveDirectory (config g))))
                        (emit (Opened (ldap_url g)) g))))
         | a # as \<Rightarrow>
             Returned
               (emit Closed
                  (writeInfo
                     (Itoa (length (groupUsers g @ map (ToUpper env) (Values a)))
                        @ '' users in group'')
                     ((emit (SearchReq (GroupDN (ActiveDirectory (config g))) (group_filter g)
                               [''member''])
                         (emit (BindReq (bind_username g)
                                  (Password (ActiveDirectory (config g))))
                            (emit (Opened (ldap_url g)) g)))
                      \<lparr>groupUsers := groupUsers g @ map (ToUpper env) (Values a)\<rparr>)))))"
  using assms
  by (simp add: listGroupUsers_def listGroupUsers_session_def Let_def collectGroupUsers_eq
      split: list.splits)

section \<open>Claims\<close>

subsection \<open>C1: the provisioner is invoked on the set difference\<close>

text \<open>
  Claim C1. For every Account Set \<open>A\<close> (\<open>adUsers\<close>) and Group Member Set \<open>G\<close>
  (\<open>groupUsers\<close>), the synchronizer never invokes the provisioner on an element of \<open>G\<close>,
  and invokes it only on elements of \<open>A\<close>; when the synchronizer returns, that is, when no
  provisioning call has panicked, the identifiers it has invoked the provisioner on are
  exactly the set difference \<open>A - G\<close>. Membership is equality of the stored strings.
  A provisioning call that panics ends the loop, so without the condition the set of
  invoked identifiers can be a proper subset of \<open>A - G\<close>.
\<close>

theorem synchronizeGroup_invokes_difference:
  "set (invoked g (synchronizeGroup env g)) \<inter> set (groupUsers g) = {} \<and>
   set (invoked g (synchronizeGroup env g)) \<subseteq> set (adUsers g) \<and>
   (failure (synchronizeGroup env g) = None \<longrightarrow>
      set (invoked g (synchronizeGroup env g)) = set (adUsers g) - set (groupUsers g))"
proof -
  obtain n where n: "invoked g (synchronizeGroup env g) = take n (missing g)"
    using synchronizeGroup_invoked_prefix by blast
  have "set (take n (missing g)) \<subseteq> set (missing g)" by (rule set_take_subset)
  then have sub: "set (invoked g (synchronizeGroup env g)) \<subseteq> set (adUsers g) - set (groupUsers g)"
    using n by (auto simp: missing_def)
  have "failure (synchronizeGroup env g) = None \<Longrightarrow>
      set (invoked g (synchronizeGroup env g)) = set (adUsers g) - set (groupUsers g)"
    using synchronizeGroup_invoked_Returned [of env g] by (auto simp: missing_def)
  with sub show ?thesis by blast
qed

text \<open>Scenario 1 of the specification, on a directory that accepts every request.\<close>

theorem synchronizeGroup_invokes_difference_witness:
  "failure (synchronizeGroup (directory None None (\<lambda>n. True))
        (example_state [''ALICE'', ''BOB'', ''CARL''] [''BOB''])) = None \<and>
   set (invoked (example_state [''ALICE'', ''BOB'', ''CARL''] [''BOB''])
     (synchronizeGroup (directory None None (\<lambda>n. True))
        (example_state [''ALICE'', ''BOB'', ''CARL''] [''BOB''])))
    = set (adUsers (example_state [''ALICE'', ''BOB'', ''CARL''] [''BOB'']))
      - set (groupUsers (example_state [''ALICE'', ''BOB'', ''CARL''] [''BOB'']))"
proof -
  have h: "failure (synchronizeGroup (directory None None (\<lambda>n. True))
        (example_state [''ALICE'', ''BOB'', ''CARL''] [''BOB''])) = None"
    by (simp add: run_defs)
  show ?thesis
    using h synchronizeGroup_invokes_difference [of "example_state [''ALICE'', ''BOB'', ''CARL''] [''BOB'']"
        "directory None None (\<lambda>n. True)"]
    by blast
qed

text \<open>
  On a directory that rejects every modification, with two missing accounts, the first
  call panics and the second account is never passed to the provisioner.
\<close>

theorem synchronizeGroup_difference_counterexample:
  "set (invoked (example_state [''ALICE'', ''CARL''] [])
     (synchronizeGroup (directory None None (\<lambda>n. False)) (example_state [''ALICE'', ''CARL''] [])))
   \<noteq> set (adUsers (example_state [''ALICE'', ''CARL''] []))
       - set (groupUsers (example_state [''ALICE'', ''CARL''] []))"
  by (simp add: run_defs)

subsection \<open>C2: the calls follow the order of the Account Set\<close>

text \<open>
  Claim C2. For every Account Set \<open>A\<close> and Group Member Set \<open>G\<close>, the sequence of
  identifiers passed to the provisioner is a prefix of the subsequence of \<open>A\<close> made of the
  elements that are not in \<open>G\<close>, in the order of \<open>A\<close>; when the synchronizer returns (no
  provisioning call has panicked) it is exactly that subsequence, so an account that
  occurs twice in \<open>A\<close> and is missing from \<open>G\<close> is passed twice.
\<close>

theorem synchronizeGroup_calls_in_order:
  "(\<exists>n. invoked g (synchronizeGroup env g) =
         take n (filter (\<lambda>x. x \<notin> set (groupUsers g)) (adUsers g))) \<and>
   (failure (synchronizeGroup env g) = None \<longrightarrow>
      invoked g (synchronizeGroup env g) =
        filter (\<lambda>x. x \<notin> set (groupUsers g)) (adUsers g))"
  using synchronizeGroup_invoked_prefix [of g env] synchronizeGroup_invoked_Returned [of env g]
  by (simp add: missing_def)

text \<open>Scenario 1: \<open>A = [ALICE, BOB, CARL]\<close>, \<open>G = [BOB]\<close>, calls \<open>ALICE\<close> then \<open>CARL\<close>.\<close>

theorem synchronizeGroup_calls_in_order_witness:
  "failure (synchronizeGroup (directory None None (\<lambda>n. True))
        (example_state [''ALICE'', ''BOB'', ''CARL''] [''BOB''])) = None \<and>
   invoked (example_state [''ALICE'', ''BOB'', ''CARL''] [''BOB''])
     (synchronizeGroup (directory None None (\<lambda>n. True))
        (example_state [''ALICE'', ''BOB'', ''CARL''] [''BOB''])) = [''ALICE'', ''CARL'']"
proof -
  have h: "failure (synchronizeGroup (directory None None (\<lambda>n. True))
        (example_state [''ALICE'', ''BOB'', ''CARL''] [''BOB''])) = None"
    by (simp add: run_defs)
  have A: "adUsers (example_state [''ALICE'', ''BOB'', ''CARL''] [''BOB'']) = [''ALICE'', ''BOB'', ''CARL'']"
    and G: "groupUsers (example_state [''ALICE'', ''BOB'', ''CARL''] [''BOB'']) = [''BOB'']"
    by (simp_all add: example_state_def)
  show ?thesis
    using h synchronizeGroup_calls_in_order [of "example_state [''ALICE'', ''BOB'', ''CARL''] [''BOB'']"
        "directory None None (\<lambda>n. True)"]
    by (simp add: A G)
qed

text \<open>A duplicate in \<open>A\<close> that is missing from \<open>G\<close> triggers a call each time.\<close>

lemma synchronizeGroup_calls_duplicates:
  "invoked (example_state [''ALICE'', ''BOB'', ''ALICE''] [''BOB''])
     (synchronizeGroup (directory None None (\<lambda>n. True))
        (example_state [''ALICE'', ''BOB'', ''ALICE''] [''BOB''])) = [''ALICE'', ''ALICE'']"
  by (simp add: run_defs)

text \<open>
  On a directory that rejects every modification the call for \<open>ALICE\<close> panics, and
  \<open>CARL\<close> is never passed to the provisioner.
\<close>

theorem synchronizeGroup_calls_counterexample:
  "invoked (example_state [''ALICE'', ''BOB'', ''CARL''] [''BOB''])
     (synchronizeGroup (directory None None (\<lambda>n. False))
        (example_state [''ALICE'', ''BOB'', ''CARL''] [''BOB'']))
   \<noteq> filter (\<lambda>x. x \<notin> set (groupUsers (example_state [''ALICE'', ''BOB'', ''CARL''] [''BOB''])))
       (adUsers (example_state [''ALICE'', ''BOB'', ''CARL''] [''BOB'']))"
  by (simp add: run_defs)

subsection \<open>C6: a failed provisioning call ends the run\<close>

text \<open>
  Claim C6. If the provisioning call for a missing account \<open>x\<close> fails (panics), after the
  calls for the accounts before it have returned, the synchronizer panics with the same
  error in the state of the failed call: the identifiers passed to the provisioner are
  the missing accounts before \<open>x\<close> and \<open>x\<close> itself, and no account after \<open>x\<close> is passed.
\<close>

theorem provisioning_failure_aborts:
  assumes "adUsers g = pre @ x # post"
    and "x \<notin> set (groupUsers g)"
    and "synchronizeLoop env pre g = Returned g1"
    and "addUserToGroup env x g1 = Panicked e g2"
  shows "synchronizeGroup env g = Panicked e g2 \<and>
         invoked g (synchronizeGroup env g) =
           filter (\<lambda>y. y \<notin> set (groupUsers g)) pre @ [x]"
proof -
  have G1: "groupUsers g1 = groupUsers g"
    using synchronizeLoop_frame [of env pre g] assms(3) by simp
  have step: "synchronizeLoop env (x # post) g1 = Panicked e g2"
    using assms(2,4) G1 by (simp add: found_in_set)
  have out: "synchronizeGroup env g = Panicked e g2"
    using assms(1,3) step by (simp add: synchronizeGroup_def synchronizeLoop_append)
  obtain e1 where e1: "trace g1 = trace g @ e1"
    "calls e1 = filter (\<lambda>y. y \<notin> set (groupUsers g)) pre"
    using synchronizeLoop_calls [of env pre g] assms(3) by auto
  obtain e2 where e2: "trace g2 = trace g1 @ e2" "calls e2 = [x]"
    using addUserToGroup_trace [of env x g1] assms(4) by auto
  have "trace (final (synchronizeGroup env g)) = trace g @ (e1 @ e2)"
    using out e1 e2 by simp
  then have "invoked g (synchronizeGroup env g) = calls (e1 @ e2)"
    by (rule invoked_append)
  with out e1 e2 show ?thesis by (simp add: calls_append)
qed

text \<open>
  Scenario 5: three missing accounts, the directory rejects the modification for the
  second one.
\<close>

theorem provisioning_failure_aborts_witness:
  "failure (synchronizeGroup (directory None None (\<lambda>n. n \<noteq> ''BOB''))
       (example_state [''ALICE'', ''BOB'', ''CARL''] [])) = Some ModifyError \<and>
   invoked (example_state [''ALICE'', ''BOB'', ''CARL''] [])
     (synchronizeGroup (directory None None (\<lambda>n. n \<noteq> ''BOB''))
       (example_state [''ALICE'', ''BOB'', ''CARL''] [])) = [''ALICE'', ''BOB'']"
proof -
  let ?env = "directory None None (\<lambda>n. n \<noteq> ''BOB'')"
  let ?g = "example_state [''ALICE'', ''BOB'', ''CARL''] []"
  let ?g1 = "final (synchronizeLoop ?env [''ALICE''] ?g)"
  let ?g2 = "final (addUserToGroup ?env ''BOB'' ?g1)"
  have h1: "adUsers ?g = [''ALICE''] @ ''BOB'' # [''CARL'']"
    by (simp add: example_state_def)
  have h2: "''BOB'' \<notin> set (groupUsers ?g)"
    by (simp add: example_state_def)
  have h3: "synchronizeLoop ?env [''ALICE''] ?g = Returned ?g1"
    by (simp add: run_defs)
  have h4: "addUserToGroup ?env ''BOB'' ?g1 = Panicked ModifyError ?g2"
    by (simp add: run_defs)
  have G: "groupUsers ?g = []"
    by (simp add: example_state_def)
  note r = provisioning_failure_aborts [OF h1 h2 h3 h4]
  have a: "synchronizeGroup ?env ?g = Panicked ModifyError ?g2"
    using r by (rule conjunct1)
  have b: "invoked ?g (synchronizeGroup ?env ?g) =
      filter (\<lambda>y. y \<notin> set (groupUsers ?g)) [''ALICE''] @ [''BOB'']"
    using r by (rule conjunct2)
  have "failure (synchronizeGroup ?env ?g) = Some ModifyError"
    unfolding a by simp
  moreover have "invoked ?g (synchronizeGroup ?env ?g) = [''ALICE'', ''BOB'']"
    unfolding b G by simp
  ultimately show ?thesis by (rule conjI)
qed

subsection \<open>C7: idempotence\<close>

text \<open>
  Claim C7. If the synchronizer runs on \<open>A\<close> and \<open>G\<close> and returns (every provisioning call
  has succeeded), then a second run on the same \<open>A\<close> and on a Group Member Set that holds
  the members of \<open>G\<close> and the identifiers added by the first run makes no provisioning
  call: it returns with the state unchanged, whatever the directory would answer.
\<close>

theorem synchronizeGroup_idempotent:
  assumes "failure (synchronizeGroup env g) = None"
    and "adUsers g' = adUsers g"
    and "set (groupUsers g') = set (groupUsers g) \<union> set (invoked g (synchronizeGroup env g))"
  shows "synchronizeGroup env' g' = Returned g' \<and> invoked g' (synchronizeGroup env' g') = []"
proof -
  have "invoked g (synchronizeGroup env g) = missing g"
    using assms(1) by (rule synchronizeGroup_invoked_Returned)
  then have "set (adUsers g') \<subseteq> set (groupUsers g')"
    using assms(2,3) by (auto simp: missing_def)
  then have "synchronizeGroup env' g' = Returned g'"
    by (simp add: synchronizeGroup_def synchronizeLoop_no_missing)
  then show ?thesis by (simp add: invoked_def new_events_def)
qed

text \<open>The second run of Scenario 1, on a directory that would reject every modification.\<close>

theorem synchronizeGroup_idempotent_witness:
  "synchronizeGroup (directory None None (\<lambda>n. False))
     (example_state [''ALICE'', ''BOB'', ''CARL''] [''BOB'', ''ALICE'', ''CARL''])
   = Returned (example_state [''ALICE'', ''BOB'', ''CARL''] [''BOB'', ''ALICE'', ''CARL'']) \<and>
   invoked (example_state [''ALICE'', ''BOB'', ''CARL''] [''BOB'', ''ALICE'', ''CARL''])
     (synchronizeGroup (directory None None (\<lambda>n. False))
        (example_state [''ALICE'', ''BOB'', ''CARL''] [''BOB'', ''ALICE'', ''CARL''])) = []"
proof -
  let ?env = "directory None None (\<lambda>n. True)"
  let ?g = "example_state [''ALICE'', ''BOB'', ''CARL''] [''BOB'']"
  let ?g' = "example_state [''ALICE'', ''BOB'', ''CARL''] [''BOB'', ''ALICE'', ''CARL'']"
  have h1: "failure (synchronizeGroup ?env ?g) = None"
    by (simp add: run_defs)
  have h2: "adUsers ?g' = adUsers ?g"
    by (simp add: example_state_def)
  have h3: "set (groupUsers ?g') = set (groupUsers ?g) \<union> set (invoked ?g (synchronizeGroup ?env ?g))"
    by (auto simp: run_defs)
  show ?thesis
    using synchronizeGroup_idempotent [OF h1 h2 h3, of "directory None None (\<lambda>n. False)"] .
qed

subsection \<open>C9: every opened session is closed\<close>

text \<open>
  Claim C9. In each of \<open>listADUsers\<close>, \<open>listGroupUsers\<close> and \<open>addUserToGroup\<close>, the events
  of the operation (up to its return or its panic) open a session exactly when the dial
  succeeds, and then the only session events of the operation are that opening followed
  by one closing: the session is closed before the operation is left, whether it returns
  or panics, and that on every path, since the outcome is not constrained. When the dial
  fails no session is opened and none is closed.
\<close>

theorem sessions_closed:
  "session_events (new_events g (listADUsers env g)) =
     (if ldap_dial env (trace g) (ldap_url g) then [Opened (ldap_url g), Closed] else []) \<and>
   session_events (new_events g (listGroupUsers env g)) =
     (if ldap_dial env (trace g) (ldap_url g) then [Opened (ldap_url g), Closed] else []) \<and>
   session_events (new_events g (addUserToGroup env name g)) =
     (if ldap_dial env (trace g @ [Provision name]) (ldap_url g)
      then [Opened (ldap_url g), Closed] else [])"
  using listADUsers_sessions [of g env] listGroupUsers_sessions [of g env]
    addUserToGroup_sessions [of g env name]
  by (intro conjI)

text \<open>A failure path: the directory refuses the bind, and the session is closed.\<close>

lemma sessions_closed_on_bind_failure:
  "new_events (example_state [] [])
     (listADUsers ((directory None None (\<lambda>n. True))\<lparr>ldap_bind := (\<lambda>tr u p. False)\<rparr>)
        (example_state [] [])) =
   [Opened ''ldap://dc1:389'', BindReq (''CORP'' @ [CHR 0x5C] @ ''svc'') ''secret'', Closed]"
  by (simp add: run_defs lister_defs)

text \<open>The same run, read through the theorem.\<close>

theorem sessions_closed_witness:
  "failure (listADUsers ((directory None None (\<lambda>n. True))\<lparr>ldap_bind := (\<lambda>tr u p. False)\<rparr>)
        (example_state [] [])) = Some BindError \<and>
   session_events (new_events (example_state [] [])
     (listADUsers ((directory None None (\<lambda>n. True))\<lparr>ldap_bind := (\<lambda>tr u p. False)\<rparr>)
        (example_state [] []))) = [Opened ''ldap://dc1:389'', Closed]"
proof -
  let ?env = "(directory None None (\<lambda>n. True))\<lparr>ldap_bind := (\<lambda>tr u p. False)\<rparr>"
  let ?g = "example_state [] []"
  have d: "ldap_dial ?env (trace ?g) (ldap_url ?g)"
    by (simp add: directory_def)
  have u: "ldap_url ?g = ''ldap://dc1:389''"
    by (simp add: run_defs)
  have f: "failure (listADUsers ?env ?g) = Some BindError"
    by (simp add: run_defs lister_defs)
  have "session_events (new_events ?g (listADUsers ?env ?g)) =
     (if ldap_dial ?env (trace ?g) (ldap_url ?g) then [Opened (ldap_url ?g), Closed] else [])"
    using sessions_closed [of ?g ?env] by (rule conjunct1)
  then have "session_events (new_events ?g (listADUsers ?env ?g)) = [Opened ''ldap://dc1:389'', Closed]"
    using d u by simp
  with f show ?thesis by (intro conjI)
qed

subsection \<open>C8: only the first matching group entry is read\<close>

text \<open>
  Claim C8. When the group search returns the entry \<open>e\<close> followed by other entries
  \<open>es\<close>, the whole outcome of \<open>listGroupUsers\<close> is the one it has on a directory whose
  search returns \<open>e\<close> alone: the other entries are ignored. The Group Member Set is built
  from the first attribute of \<open>e\<close> (the membership attribute, the only one requested):
  once the dial and the bind have succeeded, \<open>groupUsers\<close> is extended with the uppercased
  values of that attribute and the lister returns, and when \<open>e\<close> has no attribute the
  lister panics on the index expression and \<open>groupUsers\<close> is unchanged. Before that it
  can fail only on the dial or the bind.
\<close>

theorem listGroupUsers_first_entry_only:
  assumes "group_search env g = Some (e # es)"
  shows "listGroupUsers env g = listGroupUsers (env\<lparr>ldap_search := (\<lambda>b f at. Some [e])\<rparr>) g \<and>
         failure (listGroupUsers env g) =
           (if \<not> ldap_dial env (trace g) (ldap_url g) then Some ConnectError
            else if \<not> ldap_bind env (trace g @ [Opened (ldap_url g)]) (bind_username g)
                        (Password (ActiveDirectory (config g)))
            then Some BindError
            else (case Attributes e of [] \<Rightarrow> Some IndexOutOfRange | a # as \<Rightarrow> None)) \<and>
         groupUsers (final (listGroupUsers env g)) =
           (if ldap_dial env (trace g) (ldap_url g) \<and>
               ldap_bind env (trace g @ [Opened (ldap_url g)]) (bind_username g)
                 (Password (ActiveDirectory (config g)))
            then groupUsers g @
                   map (ToUpper env) (case Attributes e of [] \<Rightarrow> [] | a # as \<Rightarrow> Values a)
            else groupUsers g)"
proof (intro conjI)
  let ?env' = "env\<lparr>ldap_search := (\<lambda>b f at. Some [e])\<rparr>"
  have s: "group_search ?env' g = Some (e # [])"
    by (simp add: group_search_def)
  show "listGroupUsers env g = listGroupUsers ?env' g"
    unfolding listGroupUsers_on_entries [OF assms] listGroupUsers_on_entries [OF s]
    by (simp split: list.splits)
  show "failure (listGroupUsers env g) =
           (if \<not> ldap_dial env (trace g) (ldap_url g) then Some ConnectError
            else if \<not> ldap_bind env (trace g @ [Opened (ldap_url g)]) (bind_username g)
                        (Password (ActiveDirectory (config g)))
            then Some BindError
            else (case Attributes e of [] \<Rightarrow> Some IndexOutOfRange | a # as \<Rightarrow> None))"
    unfolding listGroupUsers_on_entries [OF assms]
    by (simp split: list.splits)
  show "groupUsers (final (listGroupUsers env g)) =
           (if ldap_dial env (trace g) (ldap_url g) \<and>
               ldap_bind env (trace g @ [Opened (ldap_url g)]) (bind_username g)
                 (Password (ActiveDirectory (config g)))
            then groupUsers g @
                   map (ToUpper env) (case Attributes e of [] \<Rightarrow> [] | a # as \<Rightarrow> Values a)
            else groupUsers g)"
    unfolding listGroupUsers_on_entries [OF assms]
    by (simp split: list.splits)
qed

text \<open>Two matching entries: only the member of the first reaches \<open>groupUsers\<close>.\<close>

theorem listGroupUsers_first_entry_only_witness:
  "listGroupUsers
     (directory None
        (Some [group_entry [''cn=Bob,ou=staff,dc=corp''], group_entry [''cn=Eve,ou=staff,dc=corp'']])
        (\<lambda>n. True))
     (example_state [] [])
   = listGroupUsers
     ((directory None
        (Some [group_entry [''cn=Bob,ou=staff,dc=corp''], group_entry [''cn=Eve,ou=staff,dc=corp'']])
        (\<lambda>n. True))\<lparr>ldap_search := (\<lambda>b f at. Some [group_entry [''cn=Bob,ou=staff,dc=corp'']])\<rparr>)
     (example_state [] []) \<and>
   failure (listGroupUsers
     (directory None
        (Some [group_entry [''cn=Bob,ou=staff,dc=corp''], group_entry [''cn=Eve,ou=staff,dc=corp'']])
        (\<lambda>n. True))
     (example_state [] [])) = None \<and>
   groupUsers (final (listGroupUsers
     (directory None
        (Some [group_entry [''cn=Bob,ou=staff,dc=corp''], group_entry [''cn=Eve,ou=staff,dc=corp'']])
        (\<lambda>n. True))
     (example_state [] []))) = [''CN=BOB,OU=STAFF,DC=CORP'']"
proof -
  let ?env = "directory None
        (Some [group_entry [''cn=Bob,ou=staff,dc=corp''], group_entry [''cn=Eve,ou=staff,dc=corp'']])
        (\<lambda>n. True)"
  let ?g = "example_state [] []"
  have h: "group_search ?env ?g =
      Some (group_entry [''cn=Bob,ou=staff,dc=corp''] # [group_entry [''cn=Eve,ou=staff,dc=corp'']])"
    by (simp add: directory_def group_search_def)
  have d: "ldap_dial ?env (trace ?g) (ldap_url ?g)"
    by (simp add: directory_def)
  have b: "ldap_bind ?env (trace ?g @ [Opened (ldap_url ?g)]) (bind_username ?g)
           (Password (ActiveDirectory (config ?g)))"
    by (simp add: directory_def)
  have a: "Attributes (group_entry [''cn=Bob,ou=staff,dc=corp'']) =
      [\<lparr>Name = ''member'', Values = [''cn=Bob,ou=staff,dc=corp'']\<rparr>]"
    by (simp add: group_entry_def)
  have g: "groupUsers ?g = []"
    by (simp add: example_state_def)
  have u: "ToUpper ?env ''cn=Bob,ou=staff,dc=corp'' = ''CN=BOB,OU=STAFF,DC=CORP''"
    by (simp add: ToUpper_def isASCII_def upper_byte_def char_of_def bit_0)
  note r = listGroupUsers_first_entry_only [OF h]
  have r1: "listGroupUsers ?env ?g = listGroupUsers
     (?env\<lparr>ldap_search := (\<lambda>b f at. Some [group_entry [''cn=Bob,ou=staff,dc=corp'']])\<rparr>) ?g"
    using r by (elim conjE)
  have r2: "failure (listGroupUsers ?env ?g) = None"
    using r [THEN conjunct2, THEN conjunct1] d b a by simp
  have r3: "groupUsers (final (listGroupUsers ?env ?g)) = [''CN=BOB,OU=STAFF,DC=CORP'']"
    using r [THEN conjunct2, THEN conjunct2] d b a g u by simp
  from r1 r2 r3 show ?thesis by (intro conjI)
qed

text \<open>
  Two matching entries of which the first has no attribute: the lister panics on the
  index expression, whatever the second entry holds.
\<close>

lemma listGroupUsers_first_entry_without_attribute:
  "failure (listGroupUsers
     (directory None
        (Some [\<lparr>DN = ''cn=everyone,ou=groups,dc=corp'', Attributes = []\<rparr>,
               group_entry [''cn=Eve,ou=staff,dc=corp'']])
        (\<lambda>n. True))
     (example_state [] [])) = Some IndexOutOfRange \<and>
   groupUsers (final (listGroupUsers
     (directory None
        (Some [\<lparr>DN = ''cn=everyone,ou=groups,dc=corp'', Attributes = []\<rparr>,
               group_entry [''cn=Eve,ou=staff,dc=corp'']])
        (\<lambda>n. True))
     (example_state [] []))) = []"
  by (simp add: run_defs lister_defs group_entry_def)

subsection \<open>C5: an empty account search aborts the run\<close>

text \<open>
  Claim C5. If the account search returns zero entries, \<open>listADUsers\<close> panics: with the
  empty-result error when the dial and the bind have succeeded (otherwise with the
  connection or bind error). The run of \<open>main\<close> from that point is exactly this panic:
  \<open>listGroupUsers\<close> and \<open>synchronizeGroup\<close> are not executed, \<open>adUsers\<close> is unchanged and
  the provisioner is never invoked.
\<close>

theorem empty_account_search_aborts:
  assumes "user_search env g = Some []"
  shows "failure (listADUsers env (writeInfo ''Loading the list of users from Active Directory'' g))
           \<noteq> None \<and>
         (ldap_dial env (trace (writeInfo ''Loading the list of users from Active Directory'' g))
            (ldap_url g) \<and>
          ldap_bind env
            (trace (writeInfo ''Loading the list of users from Active Directory'' g)
               @ [Opened (ldap_url g)])
            (bind_username g) (Password (ActiveDirectory (config g)))
          \<longrightarrow> failure (listADUsers env
                  (writeInfo ''Loading the list of users from Active Directory'' g))
                = Some NoResultsError) \<and>
         main_run env g =
           listADUsers env (writeInfo ''Loading the list of users from Active Directory'' g) \<and>
         adUsers (final (main_run env g)) = adUsers g \<and>
         invoked g (main_run env g) = []"
proof -
  let ?g1 = "writeInfo ''Loading the list of users from Active Directory'' g"
  have s: "user_search env ?g1 = Some []"
    using assms by simp
  have f: "failure (listADUsers env ?g1) \<noteq> None"
    using s by (simp add: listADUsers_def listADUsers_session_def Let_def)
  have n: "ldap_dial env (trace ?g1) (ldap_url g) \<and>
          ldap_bind env (trace ?g1 @ [Opened (ldap_url g)]) (bind_username g)
            (Password (ActiveDirectory (config g)))
          \<longrightarrow> failure (listADUsers env ?g1) = Some NoResultsError"
    using s by (simp add: listADUsers_def listADUsers_session_def Let_def)
  have a: "adUsers (final (listADUsers env ?g1)) = adUsers g"
    using s by (simp add: listADUsers_def listADUsers_session_def Let_def)
  have r: "main_run env g = listADUsers env ?g1"
    using f by (simp add: main_run_def and_then_Panicked)
  obtain e1 where e1: "trace ?g1 = trace g @ e1" "calls e1 = []"
    using writeInfo_trace [of "''Loading the list of users from Active Directory''" g]
    by (elim exE conjE) (rule that, assumption+)
  obtain e2 where e2: "trace (final (listADUsers env ?g1)) = trace ?g1 @ e2" "calls e2 = []"
    using listADUsers_trace [of env ?g1]
    by (elim exE conjE) (rule that, assumption+)
  have "trace (final (main_run env g)) = trace g @ (e1 @ e2)"
    using r e1 e2 by simp
  then have "invoked g (main_run env g) = calls (e1 @ e2)"
    by (rule invoked_append)
  then have i: "invoked g (main_run env g) = []"
    using e1 e2 by (simp add: calls_append)
  show ?thesis
    using f n r a i by simp
qed

text \<open>Scenario 3, with logging disabled: the run ends with the session of the account search.\<close>

theorem empty_account_search_aborts_witness:
  "user_search (directory (Some []) (Some [group_entry [''cn=Bob,ou=staff,dc=corp'']]) (\<lambda>n. True))
     (example_state [] []) = Some [] \<and>
   main_run (directory (Some []) (Some [group_entry [''cn=Bob,ou=staff,dc=corp'']]) (\<lambda>n. True))
     (example_state [] [])
   = Panicked NoResultsError
       ((example_state [] [])
          \<lparr>trace := [Opened ''ldap://dc1:389'',
                     BindReq (''CORP'' @ [CHR 0x5C] @ ''svc'') ''secret'',
                     SearchReq ''ou=staff,dc=corp'' ''(&(objectClass=user))''
                       [''distinguishedName''],
                     Closed]\<rparr>)"
proof -
  let ?env = "directory (Some []) (Some [group_entry [''cn=Bob,ou=staff,dc=corp'']]) (\<lambda>n. True)"
  let ?g = "example_state [] []"
  have h: "user_search ?env ?g = Some []"
    by (simp add: run_defs lister_defs)
  have l: "listADUsers ?env (writeInfo ''Loading the list of users from Active Directory'' ?g)
     = Panicked NoResultsError
       (?g\<lparr>trace := [Opened ''ldap://dc1:389'',
                     BindReq (''CORP'' @ [CHR 0x5C] @ ''svc'') ''secret'',
                     SearchReq ''ou=staff,dc=corp'' ''(&(objectClass=user))''
                       [''distinguishedName''],
                     Closed]\<rparr>)"
    by (simp add: run_defs lister_defs)
  show ?thesis
    using h l empty_account_search_aborts [OF h] by simp
qed

subsection \<open>C3: a group without members\<close>

text \<open>
  Claim C3 says that a matched group entry without a membership attribute yields an empty
  Group Member Set, and that the synchronizer then calls the provisioner for every
  account. The code does not do this: \<open>result.Entries[0].Attributes[0]\<close> is evaluated
  without a guard, so on such an entry \<open>listGroupUsers\<close> panics with an index out of
  range, and \<open>main\<close> ends there. Below, the run of \<open>main\<close> on a directory with one account
  and a group entry that has no attribute: the run panics, the account has been collected
  and the provisioner has not been invoked.
\<close>

theorem memberless_group_panics:
  "failure (main (directory (Some [user_entry ''cn=Alice,ou=staff,dc=corp''])
                    (Some [\<lparr>DN = ''cn=everyone,ou=groups,dc=corp'', Attributes = []\<rparr>])
                    (\<lambda>n. True))) = Some IndexOutOfRange \<and>
   adUsers (final (main (directory (Some [user_entry ''cn=Alice,ou=staff,dc=corp''])
                    (Some [\<lparr>DN = ''cn=everyone,ou=groups,dc=corp'', Attributes = []\<rparr>])
                    (\<lambda>n. True)))) = [''CN=ALICE,OU=STAFF,DC=CORP''] \<and>
   invoked initial_globals
     (main (directory (Some [user_entry ''cn=Alice,ou=staff,dc=corp''])
                    (Some [\<lparr>DN = ''cn=everyone,ou=groups,dc=corp'', Attributes = []\<rparr>])
                    (\<lambda>n. True))) = []"
  by (simp add: run_defs lister_defs startup_defs user_entry_def)

subsection \<open>C4: identifiers are uppercased when they are collected\<close>



text \<open>
  The directory with the accented name: the account and the member differ in the case of
  ASCII letters, both strings are uppercased by the library to the same string, and the
  account is not provisioned.
\<close>

lemma accented_identifier_is_member:
  "differ_only_in_case accented_directory accented_account accented_member \<and>
   failure (main_run accented_directory (example_state [] [])) = None \<and>
   groupUsers (final (main_run accented_directory (example_state [] []))) =
     [''CN=JOS'' @ [CHR 0xC3, CHR 0x89] @ '',OU=STAFF,DC=CORP''] \<and>
   invoked (example_state [] []) (main_run accented_directory (example_state [] [])) = []"
  by (simp add: accented_directory_def accented_account_def accented_member_def
      differ_only_in_case_def run_defs lister_defs user_entry_def group_entry_def)

subsection \<open>C10: defaults of the configuration\<close>

text \<open>
  Claim C10. If the configuration file is present and well-formed (it is read, parsed
  and decoded) but omits the key \<open>activedirectory.host\<close>, the configuration is loaded with
  the host \<open>127.0.0.1\<close>; likewise \<open>logging.enabled\<close> is false and \<open>logging.location\<close> is
  the current directory when the file omits them. Startup then fails in one case only:
  logging is enabled and the log file cannot be opened. In general the fatal errors of
  startup are exactly these: the file cannot be read or parsed, a value cannot be
  decoded, or logging is enabled and the log file cannot be opened.
\<close>

theorem startup_defaults:
  assumes "config_file env = Parsed j" and "decodable j" and "json_host j = Absent"
  shows "(\<exists>c. Unmarshal j = Inr c \<and> config (final (main_startup env)) = c \<and>
              Host (ActiveDirectory c) = ''127.0.0.1'' \<and>
              (json_enabled j = Absent \<longrightarrow> \<not> Enabled (Logging c)) \<and>
              (json_location j = Absent \<longrightarrow> Location (Logging c) = ''.'') \<and>
              failure (main_startup env) =
                (if Enabled (Logging c) \<and>
                    \<not> open_log env (Location (Logging c)) (logfilename env)
                 then Some LogOpenError else None)) \<and>
         (\<forall>env'. failure (main_startup env') =
            (case config_file env' of
               Unreadable \<Rightarrow> Some ConfigReadError
             | Unparsable \<Rightarrow> Some ConfigReadError
             | Parsed j' \<Rightarrow>
                 if \<not> decodable j' then Some ConfigCorruptError
                 else if value_or False (json_enabled j') \<and>
                         \<not> open_log env' (value_or ''.'' (json_location j')) (logfilename env')
                      then Some LogOpenError
                      else None))"
proof (intro conjI allI)
  show "\<exists>c. Unmarshal j = Inr c \<and> config (final (main_startup env)) = c \<and>
              Host (ActiveDirectory c) = ''127.0.0.1'' \<and>
              (json_enabled j = Absent \<longrightarrow> \<not> Enabled (Logging c)) \<and>
              (json_location j = Absent \<longrightarrow> Location (Logging c) = ''.'') \<and>
              failure (main_startup env) =
                (if Enabled (Logging c) \<and>
                    \<not> open_log env (Location (Logging c)) (logfilename env)
                 then Some LogOpenError else None)"
    using assms
    by (simp add: main_startup_def ReadInConfig_def Unmarshal_def Let_def)
next
  fix env'
  show "failure (main_startup env') =
            (case config_file env' of
               Unreadable \<Rightarrow> Some ConfigReadError
             | Unparsable \<Rightarrow> Some ConfigReadError
             | Parsed j' \<Rightarrow>
                 if \<not> decodable j' then Some ConfigCorruptError
                 else if value_or False (json_enabled j') \<and>
                         \<not> open_log env' (value_or ''.'' (json_location j')) (logfilename env')
                      then Some LogOpenError
                      else None)"
    by (rule main_startup_failure)
qed

text \<open>
  A file without a host and without the logging keys: startup succeeds and the first
  thing \<open>main\<close> does is to dial \<open>ldap://127.0.0.1:389\<close>.
\<close>

theorem startup_defaults_witness:
  "failure (main_startup
      ((directory (Some [user_entry ''cn=Alice,ou=staff,dc=corp''])
          (Some [group_entry [''cn=Bob,ou=staff,dc=corp'']]) (\<lambda>n. True))
         \<lparr>config_file := Parsed hostless_json\<rparr>)) = None \<and>
   Host (ActiveDirectory (config (final (main_startup
      ((directory (Some [user_entry ''cn=Alice,ou=staff,dc=corp''])
          (Some [group_entry [''cn=Bob,ou=staff,dc=corp'']]) (\<lambda>n. True))
         \<lparr>config_file := Parsed hostless_json\<rparr>))))) = ''127.0.0.1'' \<and>
   hd (trace (final (main
      ((directory (Some [user_entry ''cn=Alice,ou=staff,dc=corp''])
          (Some [group_entry [''cn=Bob,ou=staff,dc=corp'']]) (\<lambda>n. True))
         \<lparr>config_file := Parsed hostless_json\<rparr>)))) = Opened ''ldap://127.0.0.1:389''"
proof -
  let ?env = "(directory (Some [user_entry ''cn=Alice,ou=staff,dc=corp''])
          (Some [group_entry [''cn=Bob,ou=staff,dc=corp'']]) (\<lambda>n. True))
         \<lparr>config_file := Parsed hostless_json\<rparr>"
  have h1: "config_file ?env = Parsed hostless_json"
    by (simp add: directory_def)
  have h2: "decodable hostless_json"
    by (simp add: decodable_def hostless_json_def example_json_def)
  have h3: "json_host hostless_json = Absent"
    by (simp add: hostless_json_def)
  have e: "json_enabled hostless_json = Absent"
    by (simp add: hostless_json_def example_json_def)
  from startup_defaults [OF h1 h2 h3]
  obtain c where c: "config (final (main_startup ?env)) = c"
    "Host (ActiveDirectory c) = ''127.0.0.1''"
    "json_enabled hostless_json = Absent \<longrightarrow> \<not> Enabled (Logging c)"
    "failure (main_startup ?env) =
       (if Enabled (Logging c) \<and> \<not> open_log ?env (Location (Logging c)) (logfilename ?env)
        then Some LogOpenError else None)"
    by (elim exE conjE) (rule that, assumption+)
  have "\<not> Enabled (Logging c)" using c(3) e by simp
  then have "failure (main_startup ?env) = None"
    using c(4) by simp
  moreover have "Host (ActiveDirectory (config (final (main_startup ?env)))) = ''127.0.0.1''"
    using c(1,2) by simp
  moreover have "hd (trace (final (main ?env))) = Opened ''ldap://127.0.0.1:389''"
    by (simp add: run_defs lister_defs startup_defs hostless_json_def user_entry_def
        group_entry_def)
  ultimately show ?thesis by (intro conjI)
qed

text \<open>
  A file that is well-formed, omits the host and enables logging, where the log file
  cannot be opened: startup panics although the file is neither unreadable nor
  unparsable.
\<close>

theorem startup_counterexample:
  "json_host (hostless_json\<lparr>json_enabled := Present True\<rparr>) = Absent \<and>
   decodable (hostless_json\<lparr>json_enabled := Present True\<rparr>) \<and>
   main_startup
     ((directory None None (\<lambda>n. True))
        \<lparr>config_file := Parsed (hostless_json\<lparr>json_enabled := Present True\<rparr>),
         open_log := (\<lambda>dir file. False)\<rparr>)
   = Panicked LogOpenError
       (initial_globals
          \<lparr>config := example_config
             \<lparr>ActiveDirectory := (ActiveDirectory example_config)\<lparr>Host := ''127.0.0.1''\<rparr>,
              Logging := \<lparr>Enabled = True, Location = ''.''\<rparr>\<rparr>\<rparr>)"
  by (simp add: startup_defs hostless_json_def directory_def example_config_def)

end
